theory Spec2Isabelle
  imports Complex_Main
begin

section \<open>Strings inspected character by character\<close>

text \<open>
  \<open>parseAgeToDays\<close> looks at single characters of its argument, among them the
  non-ASCII en dash U+2013, so an age expression is modelled as the list of its UTF-16
  code units. All other strings of the program (identifiers, vaccine names, e-mail
  addresses) are only copied, compared and concatenated; they are HOL strings.
\<close>

type_synonym jsstring = "int list"

definition str :: "string \<Rightarrow> jsstring" where
  "str s = map of_char s"

text \<open>The code units that \<open>String.prototype.trim\<close> strips and that \<open>\\s\<close> matches:
  WhiteSpace and LineTerminator of ECMAScript.\<close>

definition isSpace :: "int \<Rightarrow> bool" where
  "isSpace c \<longleftrightarrow>
     c = 9 \<or> c = 10 \<or> c = 11 \<or> c = 12 \<or> c = 13 \<or> c = 32 \<or> c = 160 \<or> c = 5760 \<or>
     (8192 \<le> c \<and> c \<le> 8202) \<or> c = 8232 \<or> c = 8233 \<or> c = 8239 \<or> c = 8287 \<or>
     c = 12288 \<or> c = 65279"

text \<open>\<open>\\d\<close> is \<open>[0-9]\<close> and \<open>\\w\<close> is \<open>[A-Za-z0-9_]\<close> (the regexes have no flags).\<close>

definition isDigit :: "int \<Rightarrow> bool" where
  "isDigit c \<longleftrightarrow> 48 \<le> c \<and> c \<le> 57"

definition isWord :: "int \<Rightarrow> bool" where
  "isWord c \<longleftrightarrow> (65 \<le> c \<and> c \<le> 90) \<or> (97 \<le> c \<and> c \<le> 122) \<or> isDigit c \<or> c = 95"

text \<open>\<open>[\<dots>-]\<close> of \<open>rangeRegex\<close>: the en dash U+2013 or the hyphen-minus.\<close>

definition isDash :: "int \<Rightarrow> bool" where
  "isDash c \<longleftrightarrow> c = 8211 \<or> c = 45"

definition trim :: "jsstring \<Rightarrow> jsstring" where
  "trim s = rev (dropWhile isSpace (rev (dropWhile isSpace s)))"

text \<open>
  \<open>toLowerCase\<close>: \<open>A\<close>--\<open>Z\<close> become \<open>a\<close>--\<open>z\<close>. Outside ASCII only two characters
  have a lower-case form that contains an ASCII character: the Kelvin sign U+212A
  (\<open>k\<close>) and U+0130 (\<open>i\<close> followed by U+0307). Every other non-ASCII code unit is
  left as it is: its lower-case form stays outside ASCII, and the regexes below treat
  all such code units alike (unless it is a space or the en dash, which have no case).
\<close>

definition lowerUnit :: "int \<Rightarrow> jsstring" where
  "lowerUnit c =
     (if 65 \<le> c \<and> c \<le> 90 then [c + 32]
      else if c = 8490 then [107]
      else if c = 304 then [105, 775]
      else [c])"

definition toLowerCase :: "jsstring \<Rightarrow> jsstring" where
  "toLowerCase s = concat (map lowerUnit s)"

text \<open>\<open>parseInt(ds, 10)\<close> on a string of decimal digits. The value is exact; the
  rounding of IEEE doubles beyond \<open>2^53\<close> is not modelled.\<close>

definition parseInt :: "jsstring \<Rightarrow> nat" where
  "parseInt ds = foldl (\<lambda>acc c. 10 * acc + nat (c - 48)) 0 ds"

section \<open>Schedule Offset Calculator: \<open>parseAgeToDays\<close>\<close>

text \<open>A JavaScript number as far as this function can produce one: an exact rational, or
  \<open>NaN\<close>.\<close>

datatype jsnum = Num rat | NaN

text \<open>
  \<open>unitMap[unit] || 0\<close>. The object literal has the six keys of the source; every other
  key is \<open>undefined\<close> and gives \<open>0\<close>, except the two lower-case names that every object
  inherits from \<open>Object.prototype\<close> and that \<open>\\w+\<close> can match: \<open>constructor\<close> and
  \<open>__proto__\<close>. Their value is an object, which is truthy and multiplies to \<open>NaN\<close>.
\<close>

datatype unitValue = Days nat | Inherited

definition inheritedNames :: "jsstring list" where
  "inheritedNames = [str ''constructor'', str ''__proto__'']"

definition unitMap :: "jsstring \<Rightarrow> unitValue" where
  "unitMap u =
     (if u = str ''week'' \<or> u = str ''weeks'' then Days 7
      else if u = str ''month'' \<or> u = str ''months'' then Days 30
      else if u = str ''year'' \<or> u = str ''years'' then Days 365
      else if u \<in> set inheritedNames then Inherited
      else Days 0)"

definition times :: "rat \<Rightarrow> unitValue \<Rightarrow> jsnum" where
  "times q v = (case v of Days d \<Rightarrow> Num (q * of_nat d) | Inherited \<Rightarrow> NaN)"

text \<open>\<open>\\s*(\\w+)$\<close>: the spaces, then word characters up to the end of the input.
  Giving back spaces cannot help, a space is no word character.\<close>

definition matchTail :: "jsstring \<Rightarrow> jsstring option" where
  "matchTail r =
     (let w = dropWhile isSpace r
      in if w \<noteq> [] \<and> list_all isWord w then Some w else None)"

text \<open>\<open>(\\d+)\\s*(\\w+)$\<close> on a string that starts with at least \<open>n\<close> digits: the
  greedy \<open>\\d+\<close> takes \<open>n\<close> digits first and gives them back one by one while the rest
  does not match, keeping at least one.\<close>

fun matchDigitsTail :: "nat \<Rightarrow> jsstring \<Rightarrow> (jsstring \<times> jsstring) option" where
  "matchDigitsTail 0 s = None"
| "matchDigitsTail (Suc n) s =
     (case matchTail (drop (Suc n) s) of
        Some w \<Rightarrow> Some (take (Suc n) s, w)
      | None \<Rightarrow> matchDigitsTail n s)"

text \<open>\<open>singleRegex = /^(\\d+)\\s*(\\w+)$/\<close>, giving the groups \<open>(num, unit)\<close>.\<close>

definition singleRegex :: "jsstring \<Rightarrow> (jsstring \<times> jsstring) option" where
  "singleRegex s = matchDigitsTail (length (takeWhile isDigit s)) s"

text \<open>\<open>rangeRegex = /^(\\d+)[\<dots>-](\\d+)\\s*(\\w+)$/\<close>, giving \<open>(start, end, unit)\<close>.
  The first \<open>\\d+\<close> must take every leading digit, since a dash has to follow.\<close>

definition rangeRegex :: "jsstring \<Rightarrow> (jsstring \<times> jsstring \<times> jsstring) option" where
  "rangeRegex s =
     (let start = takeWhile isDigit s; r = dropWhile isDigit s
      in if start = [] then None
         else (case r of
                 [] \<Rightarrow> None
               | c # r' \<Rightarrow>
                   if isDash c
                   then (case singleRegex r' of
                           None \<Rightarrow> None
                         | Some (e, u) \<Rightarrow> Some (start, e, u))
                   else None))"

definition parseAgeToDays :: "jsstring \<Rightarrow> jsnum" where
  "parseAgeToDays ageStr0 =
     (let ageStr = toLowerCase (trim ageStr0)
      in if ageStr = str ''birth'' then Num 0
         else (case rangeRegex ageStr of
                 Some (start, end, unit) \<Rightarrow>
                   times ((of_nat (parseInt start) + of_nat (parseInt end)) / 2) (unitMap unit)
               | None \<Rightarrow>
                   (case singleRegex ageStr of
                      Some (num, unit) \<Rightarrow> times (of_nat (parseInt num)) (unitMap unit)
                    | None \<Rightarrow> Num 0)))"

section \<open>Dates\<close>

text \<open>
  A \<open>Date\<close> is its time value: milliseconds since 1970-01-01T00:00:00Z. The stored
  attributes \<open>vaccination_date\<close>, \<open>scheduled_at\<close> and \<open>dateOfBirth\<close> are ISO strings of
  such time values; the model keeps the time value, and the string comparisons of the
  store (\<open>scheduled_at <= :now\<close>) are comparisons of time values, as they are for the
  four-digit years \<open>toISOString\<close> prints. Time values are taken inside the range in
  which a \<open>Date\<close> is valid. The local time zone of the process is a fixed offset \<open>tz\<close>
  (in milliseconds, \<open>0\<close> on AWS Lambda); daylight saving changes are not modelled.
\<close>

type_synonym time = int

definition msPerDay :: int where
  "msPerDay = 1000 * 60 * 60 * 24"

definition msPerHour :: int where
  "msPerHour = 1000 * 60 * 60"

text \<open>\<open>d.setDate(d.getDate() + k)\<close>: the same local clock time \<open>k\<close> days later.\<close>

definition addDays :: "time \<Rightarrow> int \<Rightarrow> time" where
  "addDays t k = t + k * msPerDay"

text \<open>\<open>d.setHours(h, 0, 0, 0)\<close>: the local day of \<open>d\<close> at \<open>h\<close> o'clock.\<close>

definition setHours :: "int \<Rightarrow> int \<Rightarrow> time \<Rightarrow> time" where
  "setHours tz h t = ((t + tz) div msPerDay) * msPerDay + h * msPerHour - tz"

text \<open>Year, month and day of a day number (days since 1970-01-01) in the proleptic
  Gregorian calendar.\<close>

definition civil :: "int \<Rightarrow> int \<times> int \<times> int" where
  "civil z0 =
     (let z = z0 + 719468;
          era = z div 146097;
          doe = z mod 146097;
          yoe = (doe - doe div 1460 + doe div 36524 - doe div 146096) div 365;
          doy = doe - (365 * yoe + yoe div 4 - yoe div 100);
          mp = (5 * doy + 2) div 153;
          d = doy - (153 * mp + 2) div 5 + 1;
          m = (if mp < 10 then mp + 3 else mp - 9);
          y = yoe + era * 400 + (if m \<le> 2 then 1 else 0)
      in (y, m, d))"

fun digits :: "nat \<Rightarrow> int \<Rightarrow> string" where
  "digits 0 n = []"
| "digits (Suc k) n = digits k (n div 10) @ [char_of (48 + n mod 10)]"

definition yearStr :: "int \<Rightarrow> string" where
  "yearStr y =
     (if 0 \<le> y \<and> y \<le> 9999 then digits 4 y
      else (if y < 0 then ''-'' else ''+'') @ digits 6 \<bar>y\<bar>)"

text \<open>\<open>d.toISOString().split('T')[0]\<close>: the UTC date \<open>YYYY-MM-DD\<close>.\<close>

definition isoDate :: "time \<Rightarrow> string" where
  "isoDate t =
     (case civil (t div msPerDay) of
        (y, m, d) \<Rightarrow> yearStr y @ ''-'' @ digits 2 m @ ''-'' @ digits 2 d)"

section \<open>Data model\<close>

text \<open>A row of \<open>vaccination_schedule\<close>, as the loops destructure it: \<open>{ age, vaccine }\<close>,
  both strings.\<close>

type_synonym scheduleEntry = "jsstring \<times> string"

datatype cadence = daily | weekly

definition cadenceStr :: "cadence \<Rightarrow> string" where
  "cadenceStr c = (case c of daily \<Rightarrow> ''daily'' | weekly \<Rightarrow> ''weekly'')"

text \<open>An item of the table \<open>reminders\<close> (primary key \<open>reminderId\<close>). The attribute
  \<open>sent\<close> holds the strings \<open>"false"\<close> and \<open>"true"\<close>; the attribute \<open>type\<close> is the
  field \<open>rtype\<close>.\<close>

record reminder =
  reminderId :: string
  motherId :: string
  babyId :: string
  vaccine :: string
  vaccination_date :: time
  scheduled_at :: time
  sent :: bool
  rtype :: cadence

text \<open>An element of a baby's \<open>administered\<close> list. The initialization route writes
  \<open>vaccine\<close> and \<open>date\<close> only.\<close>

record entry =
  a_id :: "string option"
  a_vaccine :: string
  a_date :: string
  a_markedAt :: "time option"
  a_type :: "string option"

text \<open>An item of \<open>babies\<close>, with the attributes the modelled routes read or write. An
  \<open>UpdateCommand\<close> on a missing key creates the item, so every attribute may be absent.\<close>

record baby =
  motherUserId :: "string option"
  dateOfBirth :: "time option"
  administered :: "entry list option"

text \<open>An item of \<open>mothers\<close>: \<open>full_name\<close>, the attribute \<open>email\<close>, which
  \<open>/api/signup\<close> writes, and \<open>user.email\<close>, which \<open>cron/daily.js\<close> reads.\<close>

record mother =
  full_name :: string
  email :: "string option"
  user_email :: "string option"

text \<open>One call \<open>sendCombinedReminderEmail(email, fullName, reminders)\<close>.\<close>

record call =
  c_email :: string
  c_fullName :: string
  c_reminders :: "reminder list"

text \<open>The tables, and the calls of the notification transport that returned.\<close>

record world =
  reminders :: "reminder list"
  babies :: "string \<rightharpoonup> baby"
  mothers :: "string \<rightharpoonup> mother"
  schedule :: "scheduleEntry list"
  outbox :: "call list"

section \<open>Due-Date Projector\<close>

text \<open>
  \<open>vaccDate.setDate(dob.getDate() + parseAgeToDays(age))\<close>. \<open>setDate\<close> drops the
  fraction of its argument, which is at least \<open>1\<close> here. On \<open>NaN\<close> the date becomes
  invalid (\<open>None\<close>).
\<close>

definition vaccDateOf :: "time \<Rightarrow> jsstring \<Rightarrow> time option" where
  "vaccDateOf dob age =
     (case parseAgeToDays age of
        NaN \<Rightarrow> None
      | Num q \<Rightarrow> Some (addDays dob \<lfloor>q\<rfloor>))"

text \<open>
  The body of the loop \<open>for (let { age, vaccine } of schedule)\<close>, which the three
  materializing routes share word for word up to two places: the hour given to
  \<open>setHours\<close>, and the expression for \<open>reminderId\<close>. Both are parameters here;
  \<open>mkId\<close> also receives the number of reminders pushed before this one. \<open>n\<close> is that
  number at the start of the iteration.

  With an invalid vaccination date every comparison is false: the iteration does not
  \<open>continue\<close>, and pushes nothing. \<open>diffDays >= 7\<close> compares
  \<open>(vaccDate - now) / msPerDay\<close> with \<open>7\<close>; the operands are whole milliseconds, for
  which this is \<open>7 * msPerDay \<le> vaccDate - now\<close>.
\<close>

definition entryReminders ::
  "int \<Rightarrow> int \<Rightarrow> (nat \<Rightarrow> string \<Rightarrow> cadence \<Rightarrow> time \<Rightarrow> string) \<Rightarrow> string \<Rightarrow> string \<Rightarrow>
   time \<Rightarrow> time \<Rightarrow> nat \<Rightarrow> scheduleEntry \<Rightarrow> reminder list" where
  "entryReminders tz hour mkId userId bId dob now n e =
     (case e of (age, vacc) \<Rightarrow>
        (case vaccDateOf dob age of
           None \<Rightarrow> []
         | Some vaccDate \<Rightarrow>
             if vaccDate \<le> now then []
             else
               let weeklyRem = setHours tz hour (addDays vaccDate (- 7));
                   ws = (if 7 * msPerDay \<le> vaccDate - now \<and> weeklyRem > now
                         then [\<lparr>reminderId = mkId n vacc weekly weeklyRem,
                                motherId = userId, babyId = bId, vaccine = vacc,
                                vaccination_date = vaccDate, scheduled_at = weeklyRem,
                                sent = False, rtype = weekly\<rparr>]
                         else []);
                   dailyRem = setHours tz hour (addDays vaccDate (- 1));
                   ds = (if dailyRem > now
                         then [\<lparr>reminderId = mkId (n + length ws) vacc daily dailyRem,
                                motherId = userId, babyId = bId, vaccine = vacc,
                                vaccination_date = vaccDate, scheduled_at = dailyRem,
                                sent = False, rtype = daily\<rparr>]
                         else [])
               in ws @ ds))"

definition buildReminders ::
  "int \<Rightarrow> int \<Rightarrow> (nat \<Rightarrow> string \<Rightarrow> cadence \<Rightarrow> time \<Rightarrow> string) \<Rightarrow> string \<Rightarrow> string \<Rightarrow>
   time \<Rightarrow> time \<Rightarrow> scheduleEntry list \<Rightarrow> reminder list" where
  "buildReminders tz hour mkId userId bId dob now sched =
     foldl (\<lambda>acc e. acc @ entryReminders tz hour mkId userId bId dob now (length acc) e) [] sched"

text \<open>\<open>`${babyId}#${vaccine}#weekly#${scheduledDateStr}`\<close> and its \<open>daily\<close> twin.\<close>

definition compositeId :: "string \<Rightarrow> nat \<Rightarrow> string \<Rightarrow> cadence \<Rightarrow> time \<Rightarrow> string" where
  "compositeId bId n vacc c rem = bId @ ''#'' @ vacc @ ''#'' @ cadenceStr c @ ''#'' @ isoDate rem"

text \<open>\<open>reminderId: uuidv4()\<close>. The random source is the sequence \<open>uuid\<close> of the values
  that successive calls of \<open>uuidv4()\<close> return in one request; \<open>uuid 0\<close> is the
  \<open>babyId\<close> drawn before the loop.\<close>

definition uuidId :: "(nat \<Rightarrow> string) \<Rightarrow> nat \<Rightarrow> string \<Rightarrow> cadence \<Rightarrow> time \<Rightarrow> string" where
  "uuidId uuid n vacc c rem = uuid (Suc n)"

text \<open>The reminders each route puts into its write list.\<close>

definition putBirthDate_reminders ::
  "int \<Rightarrow> string \<Rightarrow> string \<Rightarrow> time \<Rightarrow> time \<Rightarrow> scheduleEntry list \<Rightarrow> reminder list" where
  "putBirthDate_reminders tz userId bId parsed now sched =
     buildReminders tz 14 (compositeId bId) userId bId parsed now sched"

definition postBaby_reminders ::
  "int \<Rightarrow> (nat \<Rightarrow> string) \<Rightarrow> string \<Rightarrow> string \<Rightarrow> time \<Rightarrow> time \<Rightarrow> scheduleEntry list \<Rightarrow>
   reminder list" where
  "postBaby_reminders tz uuid mUserId bId isoDOB now sched =
     buildReminders tz 11 (uuidId uuid) mUserId bId isoDOB now sched"

definition postReminder_reminders ::
  "int \<Rightarrow> string \<Rightarrow> string \<Rightarrow> time \<Rightarrow> time \<Rightarrow> scheduleEntry list \<Rightarrow> reminder list" where
  "postReminder_reminders tz userId bId dob now sched =
     buildReminders tz 11 (compositeId bId) userId bId dob now sched"

section \<open>Reminder Materializer\<close>

text \<open>
  The table \<open>reminders\<close> is a list of items with pairwise different keys; the order of
  the list stands for the order in which a query happens to return items of equal sort
  key. Calls to the store are taken to succeed, and a query to return every matching
  item in one page. A put replaces the item of the same key.
\<close>

datatype writeRequest = PutRequest reminder | DeleteRequest string

definition putItem :: "reminder \<Rightarrow> reminder list \<Rightarrow> reminder list" where
  "putItem r tbl =
     (if list_ex (\<lambda>x. reminderId x = reminderId r) tbl
      then map (\<lambda>x. if reminderId x = reminderId r then r else x) tbl
      else tbl @ [r])"

definition deleteItem :: "string \<Rightarrow> reminder list \<Rightarrow> reminder list" where
  "deleteItem k tbl = filter (\<lambda>x. reminderId x \<noteq> k) tbl"

definition applyRequest :: "writeRequest \<Rightarrow> reminder list \<Rightarrow> reminder list" where
  "applyRequest q tbl = (case q of PutRequest r \<Rightarrow> putItem r tbl | DeleteRequest k \<Rightarrow> deleteItem k tbl)"

text \<open>\<open>while (reqs.length) { const chunk = reqs.splice(0, 25); await ddb.send(new
  BatchWriteCommand(\<dots>chunk\<dots>)) }\<close>\<close>

function batchWriteLoop :: "writeRequest list \<Rightarrow> reminder list \<Rightarrow> reminder list" where
  "batchWriteLoop reqs tbl =
     (if reqs = [] then tbl
      else batchWriteLoop (drop 25 reqs) (foldl (\<lambda>t q. applyRequest q t) tbl (take 25 reqs)))"
  by pat_completeness auto
termination
  by (relation "measure (\<lambda>(reqs, tbl). length reqs)") auto

declare batchWriteLoop.simps [simp del]

text \<open>
  \<open>PUT /api/baby/:id/birth-date\<close>, for a body that passed the two format checks;
  \<open>parsed\<close> is the time value of the new birth date. Both reads of the clock in a
  request are the one instant \<open>now\<close>.
\<close>

definition putBirthDate :: "int \<Rightarrow> time \<Rightarrow> string \<Rightarrow> string \<Rightarrow> time \<Rightarrow> world \<Rightarrow> world" where
  "putBirthDate tz now userId bId parsed w =
     (let b' = (case babies w bId of
                  None \<Rightarrow> \<lparr>motherUserId = None, dateOfBirth = Some parsed, administered = None\<rparr>
                | Some b \<Rightarrow> b\<lparr>dateOfBirth := Some parsed\<rparr>);
          w1 = w\<lparr>babies := (babies w)(bId \<mapsto> b')\<rparr>;
          existingRems = filter (\<lambda>r. babyId r = bId \<and> \<not> sent r) (reminders w1);
          deletes = map (\<lambda>r. DeleteRequest (reminderId r)) existingRems;
          w2 = w1\<lparr>reminders := batchWriteLoop deletes (reminders w1)\<rparr>;
          remindersToInsert =
            map PutRequest (putBirthDate_reminders tz userId bId parsed now (schedule w2))
      in w2\<lparr>reminders := batchWriteLoop remindersToInsert (reminders w2)\<rparr>)"

text \<open>
  \<open>POST /api/baby\<close> from its step 4 on, for a request that passed the checks of steps
  1 to 3 (fields present, mother exists, no baby of that name). The result is the new
  \<open>babyId\<close> and the tables.
\<close>

definition postBaby ::
  "int \<Rightarrow> time \<Rightarrow> (nat \<Rightarrow> string) \<Rightarrow> string \<Rightarrow> time \<Rightarrow> world \<Rightarrow> string \<times> world" where
  "postBaby tz now uuid mUserId isoDOB w =
     (let bId = uuid 0;
          w1 = w\<lparr>babies := (babies w)(bId \<mapsto>
                 \<lparr>motherUserId = Some mUserId, dateOfBirth = Some isoDOB, administered = None\<rparr>)\<rparr>;
          toWrite = map PutRequest (postBaby_reminders tz uuid mUserId bId isoDOB now (schedule w1))
      in (bId, w1\<lparr>reminders := batchWriteLoop toWrite (reminders w1)\<rparr>))"

text \<open>\<open>POST /api/reminder/:babyId\<close>; the result is the status code and the tables. A
  baby without \<open>dateOfBirth\<close> has an invalid date of birth, and no reminder is built.\<close>

definition postReminder :: "int \<Rightarrow> time \<Rightarrow> string \<Rightarrow> string \<Rightarrow> world \<Rightarrow> int \<times> world" where
  "postReminder tz now userId bId w =
     (case babies w bId of
        None \<Rightarrow> (404, w)
      | Some b \<Rightarrow>
          if motherUserId b \<noteq> Some userId then (403, w)
          else
            let existing = filter (\<lambda>r. (babyId r = bId \<and> \<not> sent r) \<and> scheduled_at r > now)
                                  (reminders w);
                deletes = map (\<lambda>r. DeleteRequest (reminderId r)) existing;
                w1 = w\<lparr>reminders := batchWriteLoop deletes (reminders w)\<rparr>;
                remindersToInsert =
                  map PutRequest
                    (case dateOfBirth b of
                       None \<Rightarrow> []
                     | Some dob \<Rightarrow> postReminder_reminders tz userId bId dob now (schedule w1))
            in (201, w1\<lparr>reminders := batchWriteLoop remindersToInsert (reminders w1)\<rparr>))"

text \<open>\<open>GET /api/reminder/:babyId\<close> for the authenticated user \<open>userId\<close>: the items of
  the index \<open>ByBaby\<close> (partition key \<open>babyId\<close>, sort key \<open>sent\<close>) for this baby, with
  every attribute of the model projected.\<close>

definition getReminder :: "string \<Rightarrow> string \<Rightarrow> world \<Rightarrow> int \<times> reminder list" where
  "getReminder userId bId w = (200, sort_key sent (filter (\<lambda>r. babyId r = bId) (reminders w)))"

section \<open>Administered-Vaccine Tracker\<close>

text \<open>The loop of the initialization route: the schedule entries whose date lies before
  \<open>now\<close>, as \<open>{ vaccine, date }\<close>.\<close>

definition pastVaccines :: "time \<Rightarrow> time \<Rightarrow> scheduleEntry list \<Rightarrow> entry list" where
  "pastVaccines dob now sched =
     concat (map (\<lambda>(age, vacc).
        (case vaccDateOf dob age of
           None \<Rightarrow> []
         | Some vaccDate \<Rightarrow>
             if vaccDate < now
             then [\<lparr>a_id = None, a_vaccine = vacc, a_date = isoDate vaccDate,
                    a_markedAt = None, a_type = None\<rparr>]
             else [])) sched)"

text \<open>\<open>POST /api/baby/:babyId/administered/init\<close>: status code and tables.\<close>

definition initAdministered :: "time \<Rightarrow> string \<Rightarrow> string \<Rightarrow> world \<Rightarrow> int \<times> world" where
  "initAdministered now userId bId w =
     (case babies w bId of
        None \<Rightarrow> (404, w)
      | Some b \<Rightarrow>
          if motherUserId b \<noteq> Some userId then (403, w)
          else
            let b1 = b\<lparr>administered :=
                        Some (case administered b of None \<Rightarrow> [] | Some xs \<Rightarrow> xs)\<rparr>;
                itemsToAdd = (case dateOfBirth b of
                                None \<Rightarrow> []
                              | Some dob \<Rightarrow> pastVaccines dob now (schedule w));
                b2 = (if length itemsToAdd > 0
                      then b1\<lparr>administered :=
                              Some ((case administered b1 of None \<Rightarrow> [] | Some xs \<Rightarrow> xs)
                                    @ itemsToAdd)\<rparr>
                      else b1)
            in (200, w\<lparr>babies := (babies w)(bId \<mapsto> b2)\<rparr>))"

text \<open>\<open>POST /api/baby/:babyId/administered/mark\<close> with the body
  \<open>{ vaccine, date, type }\<close>; \<open>newId\<close> is the value \<open>uuidv4()\<close> returns.\<close>

definition markAdministered ::
  "time \<Rightarrow> string \<Rightarrow> string \<Rightarrow> string \<Rightarrow> string \<Rightarrow> string \<Rightarrow> string \<Rightarrow> world \<Rightarrow> int \<times> world" where
  "markAdministered now newId userId bId vacc date type w =
     (if vacc = [] \<or> date = [] then (400, w)
      else
        (case babies w bId of
           None \<Rightarrow> (404, w)
         | Some b \<Rightarrow>
             if motherUserId b \<noteq> Some userId then (403, w)
             else
               let existingList = (case administered b of None \<Rightarrow> [] | Some xs \<Rightarrow> xs);
                   alreadyExists = list_ex (\<lambda>e. a_vaccine e = vacc \<and> a_date e = date) existingList
               in if alreadyExists then (200, w)
                  else
                    let newEntry = \<lparr>a_id = Some newId, a_vaccine = vacc, a_date = date,
                                    a_markedAt = Some now, a_type = Some type\<rparr>
                    in (201, w\<lparr>babies := (babies w)(bId \<mapsto>
                                 b\<lparr>administered := Some (existingList @ [newEntry])\<rparr>)\<rparr>)))"

text \<open>\<open>GET /api/baby/:babyId/administered\<close>: status code and the list returned.\<close>

definition getAdministered :: "string \<Rightarrow> string \<Rightarrow> world \<Rightarrow> int \<times> entry list" where
  "getAdministered userId bId w =
     (case babies w bId of
        None \<Rightarrow> (404, [])
      | Some b \<Rightarrow>
          if motherUserId b \<noteq> Some userId then (403, [])
          else (200, (case administered b of None \<Rightarrow> [] | Some xs \<Rightarrow> xs)))"

section \<open>Due-Reminder Processor\<close>

text \<open>The query on the index \<open>ByScheduledAt\<close> (partition key \<open>type\<close>, sort key
  \<open>scheduled_at\<close>) with the filter \<open>sent = "false"\<close>.\<close>

definition queryDue :: "cadence \<Rightarrow> time \<Rightarrow> reminder list \<Rightarrow> reminder list" where
  "queryDue c now tbl =
     sort_key scheduled_at (filter (\<lambda>r. (rtype r = c \<and> scheduled_at r \<le> now) \<and> \<not> sent r) tbl)"

text \<open>
  \<open>reduce((acc, r) => { if (!acc[r.motherId]) acc[r.motherId] = []; acc[r.motherId].push(r);
  return acc }, {})\<close> followed by \<open>Object.entries\<close>: the groups in the order in which
  their keys were first inserted. The keys are user ids, which \<open>/api/signup\<close> draws with
  \<open>uuidv4()\<close>: none is an array index (those would be enumerated first) or the name of
  a property of \<open>Object.prototype\<close>.
\<close>

fun addToGroup :: "reminder \<Rightarrow> (string \<times> reminder list) list \<Rightarrow> (string \<times> reminder list) list" where
  "addToGroup r [] = [(motherId r, [r])]"
| "addToGroup r ((k, rs) # gs) =
     (if k = motherId r then (k, rs @ [r]) # gs else (k, rs) # addToGroup r gs)"

definition groupByMother :: "reminder list \<Rightarrow> (string \<times> reminder list) list" where
  "groupByMother due = foldl (\<lambda>acc r. addToGroup r acc) [] due"

text \<open>\<open>UpdateCommand \<dots> SET sent = :true\<close> on the key \<open>reminderId\<close>.\<close>

definition markSent :: "string \<Rightarrow> reminder list \<Rightarrow> reminder list" where
  "markSent k tbl = map (\<lambda>r. if reminderId r = k then r\<lparr>sent := True\<rparr> else r) tbl"

definition markAll :: "reminder list \<Rightarrow> reminder list \<Rightarrow> reminder list" where
  "markAll rs tbl = foldl (\<lambda>t r. markSent (reminderId r) t) tbl rs"


text \<open>
  The contact of a group: \<open>GetCommand\<close> on \<open>mothers\<close>, then the test
  \<open>!mother || !mother.user?.email\<close>. The result is \<open>None\<close> where the loop takes its
  \<open>continue\<close> (no such mother, no \<open>user.email\<close>, or an empty one), else the address and
  \<open>mother.full_name\<close>.
\<close>

definition contactOf :: "world \<Rightarrow> string \<Rightarrow> (string \<times> string) option" where
  "contactOf w mId =
     (case mothers w mId of
        None \<Rightarrow> None
      | Some m \<Rightarrow>
          (case user_email m of
             None \<Rightarrow> None
           | Some e \<Rightarrow> if e = [] then None else Some (e, full_name m)))"

text \<open>
  The loop \<open>for (const [motherId, reminders] of Object.entries(\<dots>))\<close> of
  \<open>cron/daily.js\<close>. \<open>sendFails\<close> tells for which calls the transport throws. An
  exception leaves the loop and reaches the \<open>catch\<close> of the handler; the result is
  \<open>False\<close> then, with the tables as they are at that moment. An empty group would
  throw at \<open>reminders[0].vaccination_date\<close>.
\<close>

fun processGroups :: "(call \<Rightarrow> bool) \<Rightarrow> (string \<times> reminder list) list \<Rightarrow> world \<Rightarrow> bool \<times> world" where
  "processGroups sendFails [] w = (True, w)"
| "processGroups sendFails ((mId, rs) # gs) w =
     (case contactOf w mId of
        None \<Rightarrow> processGroups sendFails gs w
      | Some (e, fullName) \<Rightarrow>
          if rs = [] then (False, w)
          else
            let c = \<lparr>c_email = e, c_fullName = fullName, c_reminders = rs\<rparr>
            in if sendFails c then (False, w)
               else processGroups sendFails gs
                      (w\<lparr>reminders := markAll rs (reminders w),
                         outbox := outbox w @ [c]\<rparr>))"

definition capitalised :: "cadence \<Rightarrow> string" where
  "capitalised c = (case c of daily \<Rightarrow> ''Daily'' | weekly \<Rightarrow> ''Weekly'')"

text \<open>
  \<open>handler\<close> of \<open>cron/daily.js\<close> (\<open>c = daily\<close>) and of the versions of
  \<open>cron/weekly.js\<close> that test \<open>mother.user?.email\<close> (\<open>c = weekly\<close>): they differ in the
  tag and in the wording of the three bodies only. The result is the returned
  \<open>{ statusCode, body }\<close> and the tables.
\<close>

definition handler :: "(call \<Rightarrow> bool) \<Rightarrow> cadence \<Rightarrow> time \<Rightarrow> world \<Rightarrow> (int \<times> string) \<times> world" where
  "handler sendFails c now w =
     (let due = queryDue c now (reminders w)
      in if length due = 0 then ((200, ''No '' @ cadenceStr c @ '' reminders.''), w)
         else (case processGroups sendFails (groupByMother due) w of
                 (True, w') \<Rightarrow> ((200, capitalised c @ '' reminders processed.''), w')
               | (False, w') \<Rightarrow> ((500, capitalised c @ '' cron failure.''), w')))"

text \<open>
  The first version in \<open>cron/weekly.js\<close> tests \<open>!mother || !email\<close>, where no \<open>email\<close>
  is declared: evaluating it throws a \<open>ReferenceError\<close> as soon as the mother exists.
\<close>

fun processGroupsUndeclared :: "(string \<times> reminder list) list \<Rightarrow> world \<Rightarrow> bool \<times> world" where
  "processGroupsUndeclared [] w = (True, w)"
| "processGroupsUndeclared ((mId, rs) # gs) w =
     (case mothers w mId of
        None \<Rightarrow> processGroupsUndeclared gs w
      | Some m \<Rightarrow> (False, w))"

definition handlerUndeclared :: "time \<Rightarrow> world \<Rightarrow> (int \<times> string) \<times> world" where
  "handlerUndeclared now w =
     (let due = queryDue weekly now (reminders w)
      in if length due = 0 then ((200, ''No weekly reminders.''), w)
         else (case processGroupsUndeclared (groupByMother due) w of
                 (True, w') \<Rightarrow> ((200, ''Weekly reminders processed.''), w')
               | (False, w') \<Rightarrow> ((500, ''Weekly cron failure.''), w')))"

section \<open>Notions for stating the properties\<close>




text \<open>The call the loop issues for a group, \<open>None\<close> for a group it skips.\<close>

definition groupCall :: "world \<Rightarrow> string \<times> reminder list \<Rightarrow> call option" where
  "groupCall w g =
     (case contactOf w (fst g) of
        None \<Rightarrow> None
      | Some (e, fullName) \<Rightarrow> Some \<lparr>c_email = e, c_fullName = fullName, c_reminders = snd g\<rparr>)"

text \<open>The iteration for the group throws.\<close>

definition groupThrows :: "(call \<Rightarrow> bool) \<Rightarrow> world \<Rightarrow> string \<times> reminder list \<Rightarrow> bool" where
  "groupThrows sendFails w g =
     (case groupCall w g of
        None \<Rightarrow> False
      | Some c \<Rightarrow> snd g = [] \<or> sendFails c)"

section \<open>Concrete inputs\<close>

text \<open>One schedule row, a source of identifiers, and a world with no baby yet. The
  baby created from it is born on 1970-01-01; its vaccination date is 1970-02-12.\<close>

definition exSchedule :: "scheduleEntry list" where
  "exSchedule = [(str ''6 weeks'', ''OPV'')]"

definition exUuid :: "nat \<Rightarrow> string" where
  "exUuid n = (if n = 0 then ''b'' else if n = 1 then ''u1'' else ''u2'')"

definition exWorld :: world where
  "exWorld = \<lparr>reminders = [], babies = Map.empty, mothers = Map.empty,
              schedule = exSchedule, outbox = []\<rparr>"

text \<open>The weekly reminder that the regeneration route builds for this baby at
  \<open>now = 0\<close>.\<close>

definition exWeekly :: reminder where
  "exWeekly = \<lparr>reminderId = ''b#OPV#weekly#1970-02-05'', motherId = ''m'', babyId = ''b'',
               vaccine = ''OPV'', vaccination_date = 3628800000, scheduled_at = 3063600000,
               sent = False, rtype = weekly\<rparr>"

text \<open>A baby \<open>b\<close> of mother \<open>m\<close> with two reminders from an earlier materialization:
  one still unsent whose trigger time (1969-12-31T23:59:59.999Z) has passed at
  \<open>now = 0\<close>, and one already sent.\<close>

definition exPastUnsent :: reminder where
  "exPastUnsent = \<lparr>reminderId = ''past1'', motherId = ''m'', babyId = ''b'', vaccine = ''BCG'',
                   vaccination_date = 86400000, scheduled_at = - 1, sent = False, rtype = daily\<rparr>"

definition exSent :: reminder where
  "exSent = \<lparr>reminderId = ''sent1'', motherId = ''m'', babyId = ''b'', vaccine = ''HepB'',
             vaccination_date = 86400000, scheduled_at = - 2, sent = True, rtype = daily\<rparr>"

definition exBaby :: baby where
  "exBaby = \<lparr>motherUserId = Some ''m'', dateOfBirth = Some 0, administered = None\<rparr>"

definition exOld :: world where
  "exOld = \<lparr>reminders = [exPastUnsent, exSent], babies = [''b'' \<mapsto> exBaby],
            mothers = Map.empty, schedule = exSchedule, outbox = []\<rparr>"

text \<open>The daily reminder of \<open>OPV\<close> as the regeneration route wrote it (11:00 on
  1970-02-11), after the processor has sent it.\<close>

definition exSentDaily :: reminder where
  "exSentDaily = \<lparr>reminderId = ''b#OPV#daily#1970-02-11'', motherId = ''m'', babyId = ''b'',
                  vaccine = ''OPV'', vaccination_date = 3628800000, scheduled_at = 3582000000,
                  sent = True, rtype = daily\<rparr>"

definition exAfterSend :: world where
  "exAfterSend = \<lparr>reminders = [exSentDaily], babies = [''b'' \<mapsto> exBaby],
                  mothers = Map.empty, schedule = exSchedule, outbox = []\<rparr>"

text \<open>A baby whose schedule has one vaccine due at birth.\<close>

definition exAtBirth :: world where
  "exAtBirth = \<lparr>reminders = [], babies = [''b'' \<mapsto> exBaby], mothers = Map.empty,
                schedule = [(str ''birth'', ''BCG'')], outbox = []\<rparr>"

text \<open>Three due daily reminders, two of mother \<open>mA\<close> and one of mother \<open>mB\<close>; the
  transport that throws for the address of \<open>mA\<close>, and the one that never throws.\<close>

definition exR1 :: reminder where
  "exR1 = \<lparr>reminderId = ''r1'', motherId = ''mA'', babyId = ''b1'', vaccine = ''OPV'',
           vaccination_date = 100, scheduled_at = 5, sent = False, rtype = daily\<rparr>"

definition exR2 :: reminder where
  "exR2 = \<lparr>reminderId = ''r2'', motherId = ''mB'', babyId = ''b2'', vaccine = ''BCG'',
           vaccination_date = 100, scheduled_at = 6, sent = False, rtype = daily\<rparr>"

definition exR3 :: reminder where
  "exR3 = \<lparr>reminderId = ''r3'', motherId = ''mA'', babyId = ''b1'', vaccine = ''DPT'',
           vaccination_date = 100, scheduled_at = 7, sent = False, rtype = daily\<rparr>"

definition exCron :: world where
  "exCron = \<lparr>reminders = [exR1, exR2, exR3], babies = Map.empty,
             mothers = [''mA'' \<mapsto> \<lparr>full_name = ''A'', email = Some ''a@x'', user_email = Some ''a@x''\<rparr>,
                        ''mB'' \<mapsto> \<lparr>full_name = ''B'', email = Some ''b@x'', user_email = Some ''b@x''\<rparr>],
             schedule = [], outbox = []\<rparr>"


definition exFailsForA :: "call \<Rightarrow> bool" where
  "exFailsForA c \<longleftrightarrow> c_email c = ''a@x''"


section \<open>Properties of the Schedule Offset Calculator\<close>



















section \<open>Reading the reminders of a baby\<close>

text \<open>The routes that change or list a baby's data refuse a user who is not the
  mother of the baby with status 403.\<close>

lemma ownership_checked_elsewhere:
  assumes "babies w bId = Some b" and "motherUserId b \<noteq> Some u"
  shows "postReminder tz now u bId w = (403, w)"
    and "initAdministered now u bId w = (403, w)"
    and "getAdministered u bId w = (403, [])"
  using assms by (simp_all add: postReminder_def initAdministered_def getAdministered_def)

text \<open>
  C10. The response of \<open>GET /api/reminder/:babyId\<close> does not depend on the
  authenticated user who asks: two users get the same answer for the same baby, which
  is every reminder of that baby, sent or not, whoever its mother is.
\<close>

theorem getReminder_independent_of_user:
  "getReminder u1 bId w = getReminder u2 bId w \<and>
   fst (getReminder u1 bId w) = 200 \<and>
   set (snd (getReminder u1 bId w)) = {r \<in> set (reminders w). babyId r = bId}"
  by (auto simp: getReminder_def)

section \<open>Properties of the Due-Date Projector\<close>

lemma isoDate_examples:
  "isoDate 0 = ''1970-01-01''"
  "isoDate (- 1) = ''1969-12-31''"
  "isoDate 951868800000 = ''2000-03-01''"
  "isoDate 1709251199999 = ''2024-02-29''"
  "isoDate 1749600000000 = ''2025-06-11''"
  "isoDate (- 62135596800001) = ''0000-12-31''"
  by code_simp+

lemma setHours_le: "setHours tz h t \<le> t + h * msPerHour"
proof -
  have "0 < msPerDay" by (simp add: msPerDay_def)
  then have "((t + tz) div msPerDay) * msPerDay \<le> t + tz"
    by (metis mult.commute pos_mod_sign div_mult_mod_eq add.commute le_add_same_cancel1 add.right_neutral add_le_cancel_left)
  then show ?thesis by (simp add: setHours_def)
qed

lemma setHours_before:
  assumes "h < 24" and "1 \<le> k"
  shows "setHours tz h (addDays v (- k)) < v"
proof -
  have "setHours tz h (addDays v (- k)) \<le> v - k * msPerDay + h * msPerHour"
    using setHours_le[of tz h "addDays v (- k)"] by (simp add: addDays_def)
  moreover have "h * msPerHour < k * msPerDay"
  proof -
    have "h * msPerHour < 24 * msPerHour" using assms(1) by (simp add: msPerHour_def)
    also have "\<dots> = 1 * msPerDay" by (simp add: msPerHour_def msPerDay_def)
    also have "\<dots> \<le> k * msPerDay" using assms(2) by (simp add: msPerDay_def)
    finally show ?thesis .
  qed
  ultimately show ?thesis by linarith
qed

lemma entryReminders_member:
  assumes "r \<in> set (entryReminders tz hour mkId userId bId dob now n (age, vacc))"
  shows "\<exists>v. vaccDateOf dob age = Some v \<and> now < v \<and> vaccination_date r = v \<and>
             now < scheduled_at r \<and>
             (rtype r = weekly \<and> scheduled_at r = setHours tz hour (addDays v (- 7)) \<and>
                7 * msPerDay \<le> v - now
              \<or> rtype r = daily \<and> scheduled_at r = setHours tz hour (addDays v (- 1)))"
  using assms
  by (auto simp: entryReminders_def Let_def split: option.splits if_splits)

lemma foldl_append_member:
  "r \<in> set (foldl (\<lambda>acc e. acc @ F (length acc) e) acc0 xs) \<Longrightarrow>
   r \<in> set acc0 \<or> (\<exists>e \<in> set xs. \<exists>n. r \<in> set (F n e))"
proof (induction xs arbitrary: acc0)
  case Nil
  then show ?case by simp
next
  case (Cons x xs)
  from Cons.prems have "r \<in> set (foldl (\<lambda>acc e. acc @ F (length acc) e) (acc0 @ F (length acc0) x) xs)"
    by simp
  from Cons.IH[OF this] show ?case by auto
qed

lemma buildReminders_member:
  assumes "r \<in> set (buildReminders tz hour mkId userId bId dob now sched)"
  shows "\<exists>age vacc n. (age, vacc) \<in> set sched \<and>
           r \<in> set (entryReminders tz hour mkId userId bId dob now n (age, vacc))"
proof -
  from assms foldl_append_member[of r "\<lambda>n e. entryReminders tz hour mkId userId bId dob now n e" "[]" sched]
  obtain e n where "e \<in> set sched" and "r \<in> set (entryReminders tz hour mkId userId bId dob now n e)"
    unfolding buildReminders_def by auto
  moreover obtain age vacc where "e = (age, vacc)" by (cases e)
  ultimately show ?thesis by blast
qed

lemma buildReminders_future:
  assumes r: "r \<in> set (buildReminders tz hour mkId userId bId dob now sched)" and h: "hour < 24"
  shows "now < vaccination_date r \<and> now < scheduled_at r \<and> scheduled_at r < vaccination_date r"
proof -
  from buildReminders_member[OF r] obtain age vacc n
    where "r \<in> set (entryReminders tz hour mkId userId bId dob now n (age, vacc))" by blast
  from entryReminders_member[OF this] obtain v where
    v: "now < v" "vaccination_date r = v" "now < scheduled_at r"
       "scheduled_at r = setHours tz hour (addDays v (- 7)) \<or>
        scheduled_at r = setHours tz hour (addDays v (- 1))" by blast
  have "setHours tz hour (addDays v (- 7)) < v" "setHours tz hour (addDays v (- 1)) < v"
    using setHours_before[OF h, of 7 tz v] setHours_before[OF h, of 1 tz v] by simp_all
  with v show ?thesis by auto
qed

lemma entryReminders_past:
  "vaccDateOf dob age = Some v \<Longrightarrow> v \<le> now \<Longrightarrow>
   entryReminders tz hour mkId userId bId dob now n (age, vacc) = []"
  by (simp add: entryReminders_def)



text \<open>
  C8. At the time of generation every reminder that one of the three routes puts into
  its write list has its vaccination date after \<open>now\<close>, its trigger time after \<open>now\<close>,
  and its trigger time before its vaccination date; a schedule entry whose vaccination
  date is not after \<open>now\<close> contributes no reminder.
\<close>

theorem materialized_reminders_in_future:
  "(r \<in> set (putBirthDate_reminders tz userId bId dob now sched) \<union>
        set (postBaby_reminders tz uuid userId bId dob now sched) \<union>
        set (postReminder_reminders tz userId bId dob now sched)
    \<longrightarrow> now < vaccination_date r \<and> now < scheduled_at r \<and>
        scheduled_at r < vaccination_date r) \<and>
   (vaccDateOf dob age = Some v \<and> v \<le> now
    \<longrightarrow> entryReminders tz hour mkId userId bId dob now n (age, vacc) = [])"
  using buildReminders_future[of r tz 14 "compositeId bId" userId bId dob now sched]
        buildReminders_future[of r tz 11 "uuidId uuid" userId bId dob now sched]
        buildReminders_future[of r tz 11 "compositeId bId" userId bId dob now sched]
        entryReminders_past[of dob age v now tz hour mkId userId bId n vacc]
  unfolding putBirthDate_reminders_def postBaby_reminders_def postReminder_reminders_def
  by auto

theorem materialized_reminders_in_future_witness:
  "exWeekly \<in> set (postReminder_reminders 0 ''m'' ''b'' 0 0 exSchedule) \<and>
   0 < vaccination_date exWeekly \<and> 0 < scheduled_at exWeekly \<and>
   scheduled_at exWeekly < vaccination_date exWeekly \<and>
   vaccDateOf 0 (str ''birth'') = Some 0 \<and>
   entryReminders 0 11 (compositeId ''b'') ''m'' ''b'' 0 0 0 (str ''birth'', ''BCG'') = []"
proof -
  have m: "exWeekly \<in> set (postReminder_reminders 0 ''m'' ''b'' 0 0 exSchedule)"
    by code_simp
  have v: "vaccDateOf 0 (str ''birth'') = Some 0"
    by code_simp
  note t = materialized_reminders_in_future[where r = exWeekly and tz = 0 and userId = "''m''"
      and bId = "''b''" and dob = 0 and now = 0 and sched = exSchedule and uuid = exUuid
      and age = "str ''birth''" and v = 0 and hour = 11 and mkId = "compositeId ''b''"
      and n = 0 and vacc = "''BCG''"]
  from t m have 1: "0 < vaccination_date exWeekly \<and> 0 < scheduled_at exWeekly \<and>
      scheduled_at exWeekly < vaccination_date exWeekly"
    by blast
  from t v have 2: "entryReminders 0 11 (compositeId ''b'') ''m'' ''b'' 0 0 0 (str ''birth'', ''BCG'') = []"
    by simp
  from m 1 v 2 show ?thesis by blast
qed





lemma setHours_14_11: "setHours tz 14 t = setHours tz 11 t + 3 * msPerHour"
  by (simp add: setHours_def)

text \<open>
  C9, evaluated. For the same mother, baby, date of birth (1970-01-01), schedule and
  \<open>now\<close> (the same instant), the birth-date-correction route schedules both reminders
  for 14:00 and the other two routes for 11:00, three hours earlier.
\<close>

theorem correction_route_uses_hour_14:
  "map scheduled_at (putBirthDate_reminders 0 ''m'' ''b'' 0 0 exSchedule)
     = [3074400000, 3592800000] \<and>
   map scheduled_at (postReminder_reminders 0 ''m'' ''b'' 0 0 exSchedule)
     = [3063600000, 3582000000] \<and>
   map scheduled_at (postBaby_reminders 0 exUuid ''m'' ''b'' 0 0 exSchedule)
     = [3063600000, 3582000000]"
  by code_simp

section \<open>Properties of the Reminder Materializer\<close>

text \<open>The identifier of a reminder: on the regeneration and the correction route it is
  the composite of baby, vaccine, cadence and the date of the trigger time; on the
  creation route it is a value of the random source.\<close>

lemma entryReminders_identity:
  assumes "r \<in> set (entryReminders tz hour mkId userId bId dob now n e)"
  shows "(\<exists>k. reminderId r = mkId k (vaccine r) (rtype r) (scheduled_at r)) \<and>
         babyId r = bId \<and> motherId r = userId \<and> \<not> sent r"
proof -
  obtain age vacc where e: "e = (age, vacc)" by (cases e)
  from assms show ?thesis
    unfolding e entryReminders_def Let_def
    by (auto split: option.splits if_splits)
qed

lemma buildReminders_identity:
  assumes "r \<in> set (buildReminders tz hour mkId userId bId dob now sched)"
  shows "(\<exists>k. reminderId r = mkId k (vaccine r) (rtype r) (scheduled_at r)) \<and>
         babyId r = bId \<and> motherId r = userId \<and> \<not> sent r"
proof -
  from assms foldl_append_member[of r "\<lambda>n e. entryReminders tz hour mkId userId bId dob now n e" "[]" sched]
  obtain e n where "r \<in> set (entryReminders tz hour mkId userId bId dob now n e)"
    unfolding buildReminders_def by auto
  then show ?thesis by (rule entryReminders_identity)
qed

lemma composite_routes_identity:
  assumes "r \<in> set (postReminder_reminders tz userId bId dob now sched) \<union>
               set (putBirthDate_reminders tz userId bId dob now sched)"
  shows "reminderId r =
           bId @ ''#'' @ vaccine r @ ''#'' @ cadenceStr (rtype r) @ ''#'' @ isoDate (scheduled_at r)"
  using assms buildReminders_identity[of r tz 11 "compositeId bId" userId bId dob now sched]
    buildReminders_identity[of r tz 14 "compositeId bId" userId bId dob now sched]
  unfolding postReminder_reminders_def putBirthDate_reminders_def compositeId_def
  by blast

lemma creation_route_identity:
  assumes "r \<in> set (postBaby_reminders tz uuid userId bId dob now sched)"
  shows "\<exists>k. reminderId r = uuid (Suc k)"
  using assms buildReminders_identity[of r tz 11 "uuidId uuid" userId bId dob now sched]
  unfolding postBaby_reminders_def uuidId_def
  by blast

lemma batchWriteLoop_foldl:
  "batchWriteLoop reqs tbl = foldl (\<lambda>t q. applyRequest q t) tbl reqs"
proof (induction reqs tbl rule: batchWriteLoop.induct)
  case (1 reqs tbl)
  show ?case
  proof (cases "reqs = []")
    case True
    then show ?thesis by (simp add: batchWriteLoop.simps)
  next
    case False
    have "batchWriteLoop reqs tbl =
            batchWriteLoop (drop 25 reqs) (foldl (\<lambda>t q. applyRequest q t) tbl (take 25 reqs))"
      using False by (subst batchWriteLoop.simps) simp
    also have "\<dots> = foldl (\<lambda>t q. applyRequest q t)
                       (foldl (\<lambda>t q. applyRequest q t) tbl (take 25 reqs)) (drop 25 reqs)"
      using False by (rule "1.IH")
    also have "\<dots> = foldl (\<lambda>t q. applyRequest q t) tbl (take 25 reqs @ drop 25 reqs)"
      by (simp only: foldl_append)
    finally show ?thesis by simp
  qed
qed

lemma applyRequest_Put [simp]: "applyRequest (PutRequest r) t = putItem r t"
  by (simp add: applyRequest_def)

lemma applyRequest_Delete [simp]: "applyRequest (DeleteRequest k) t = deleteItem k t"
  by (simp add: applyRequest_def)

lemma putItem_set: "set (putItem r tbl) \<subseteq> insert r (set tbl)"
  by (auto simp: putItem_def)

lemma puts_set:
  "set (foldl (\<lambda>t q. applyRequest q t) tbl (map PutRequest rs)) \<subseteq> set tbl \<union> set rs"
proof (induction rs arbitrary: tbl)
  case Nil
  then show ?case by simp
next
  case (Cons r rs)
  have "set (foldl (\<lambda>t q. applyRequest q t) (putItem r tbl) (map PutRequest rs))
          \<subseteq> set (putItem r tbl) \<union> set rs"
    by (rule Cons.IH)
  with putItem_set[of r tbl] show ?case by auto
qed

lemma deletes_filter:
  "foldl (\<lambda>t q. applyRequest q t) tbl (map (\<lambda>r. DeleteRequest (reminderId r)) xs)
     = filter (\<lambda>r. reminderId r \<notin> reminderId ` set xs) tbl"
proof (induction xs arbitrary: tbl)
  case Nil
  then show ?case by simp
next
  case (Cons x xs)
  show ?case by (simp add: Cons.IH deleteItem_def conj_commute)
qed

lemma putBirthDate_reminders_eq:
  "reminders (putBirthDate tz now userId bId parsed w) =
     foldl (\<lambda>t q. applyRequest q t)
       (filter (\<lambda>r. reminderId r \<notin>
                    reminderId ` set (filter (\<lambda>r. babyId r = bId \<and> \<not> sent r) (reminders w)))
               (reminders w))
       (map PutRequest (putBirthDate_reminders tz userId bId parsed now (schedule w)))"
  by (simp add: putBirthDate_def Let_def batchWriteLoop_foldl deletes_filter)

lemma putBirthDate_unsent_are_new:
  assumes "r \<in> set (reminders (putBirthDate tz now userId bId parsed w))"
    and "babyId r = bId" and "\<not> sent r"
  shows "r \<in> set (putBirthDate_reminders tz userId bId parsed now (schedule w))"
proof -
  let ?old = "filter (\<lambda>r. reminderId r \<notin>
                    reminderId ` set (filter (\<lambda>r. babyId r = bId \<and> \<not> sent r) (reminders w)))
               (reminders w)"
  from assms(1) have "r \<in> set ?old \<union> set (putBirthDate_reminders tz userId bId parsed now (schedule w))"
    unfolding putBirthDate_reminders_eq using puts_set by blast
  moreover have "r \<notin> set ?old"
  proof
    assume "r \<in> set ?old"
    then have "r \<in> set (reminders w)"
      and "reminderId r \<notin> reminderId ` set (filter (\<lambda>r. babyId r = bId \<and> \<not> sent r) (reminders w))"
      by simp_all
    with assms(2,3) show False by auto
  qed
  ultimately show ?thesis by blast
qed

text \<open>The two routes with composite identifiers can be run again: for the same inputs
  the second run leaves the set of reminders as the first run left it.\<close>

lemma putItem_member:
  "r \<in> set (putItem n tbl) \<longleftrightarrow>
     (if reminderId r = reminderId n then r = n else r \<in> set tbl)"
  by (auto simp: putItem_def list_ex_iff)

lemma puts_agree:
  assumes "\<And>r::reminder. reminderId r \<notin> reminderId ` set ns \<Longrightarrow> r \<in> set T \<longleftrightarrow> r \<in> set T'"
  shows "set (foldl (\<lambda>t q. applyRequest q t) T (map PutRequest ns)) =
         set (foldl (\<lambda>t q. applyRequest q t) T' (map PutRequest ns))"
  using assms
proof (induction ns arbitrary: T T')
  case Nil
  then show ?case by auto
next
  case (Cons n ns)
  have "\<And>r::reminder. reminderId r \<notin> reminderId ` set ns \<Longrightarrow>
          r \<in> set (putItem n T) \<longleftrightarrow> r \<in> set (putItem n T')"
  proof -
    fix r :: reminder assume a: "reminderId r \<notin> reminderId ` set ns"
    show "r \<in> set (putItem n T) \<longleftrightarrow> r \<in> set (putItem n T')"
    proof (cases "reminderId r = reminderId n")
      case True
      then show ?thesis by (simp add: putItem_member)
    next
      case False
      with a have "reminderId r \<notin> reminderId ` set (n # ns)" by auto
      from Cons.prems[OF this] False show ?thesis by (simp add: putItem_member)
    qed
  qed
  from Cons.IH[OF this] show ?case by simp
qed

lemma puts_other:
  "reminderId r \<notin> reminderId ` set ns \<Longrightarrow>
   r \<in> set (foldl (\<lambda>t q. applyRequest q t) T (map PutRequest ns)) \<longleftrightarrow> r \<in> set T"
proof (induction ns arbitrary: T)
  case Nil
  then show ?case by simp
next
  case (Cons n ns)
  then have 1: "reminderId r \<noteq> reminderId n" and 2: "reminderId r \<notin> reminderId ` set ns" by auto
  from Cons.IH[OF 2, of "putItem n T"] 1 show ?case by (simp add: putItem_member)
qed

lemma regenerate_twice:
  fixes P :: "reminder \<Rightarrow> bool"
  defines "step \<equiv> \<lambda>ns T. foldl (\<lambda>t q. applyRequest q t)
                     (filter (\<lambda>r. reminderId r \<notin> reminderId ` set (filter P T)) T)
                     (map PutRequest ns)"
  shows "set (step ns (step ns T)) = set (step ns T)"
proof -
  let ?R0 = "filter (\<lambda>r. reminderId r \<notin> reminderId ` set (filter P T)) T"
  let ?T1 = "step ns T"
  let ?R1 = "filter (\<lambda>r. reminderId r \<notin> reminderId ` set (filter P ?T1)) ?T1"
  have T1: "?T1 = foldl (\<lambda>t q. applyRequest q t) ?R0 (map PutRequest ns)"
    by (simp add: step_def)
  have noP: "\<And>x. x \<in> set ?R0 \<Longrightarrow> \<not> P x" by auto
  have agree: "\<And>r::reminder. reminderId r \<notin> reminderId ` set ns \<Longrightarrow> r \<in> set ?R1 \<longleftrightarrow> r \<in> set ?R0"
  proof -
    fix r :: reminder assume a: "reminderId r \<notin> reminderId ` set ns"
    have in1: "r \<in> set ?T1 \<longleftrightarrow> r \<in> set ?R0" unfolding T1 using a by (rule puts_other)
    have "r \<in> set ?R0 \<Longrightarrow> reminderId r \<notin> reminderId ` set (filter P ?T1)"
    proof
      assume r0: "r \<in> set ?R0" and "reminderId r \<in> reminderId ` set (filter P ?T1)"
      then obtain x where x: "x \<in> set ?T1" "P x" "reminderId x = reminderId r" by auto
      with a have "reminderId x \<notin> reminderId ` set ns" by simp
      then have "x \<in> set ?T1 \<longleftrightarrow> x \<in> set ?R0" unfolding T1 by (rule puts_other)
      with x(1) have "x \<in> set ?R0" by simp
      with noP x(2) show False by blast
    qed
    with in1 show "r \<in> set ?R1 \<longleftrightarrow> r \<in> set ?R0" by auto
  qed
  have "step ns ?T1 = foldl (\<lambda>t q. applyRequest q t) ?R1 (map PutRequest ns)"
    by (simp add: step_def)
  also have "set \<dots> = set (foldl (\<lambda>t q. applyRequest q t) ?R0 (map PutRequest ns))"
    using agree by (rule puts_agree)
  finally show ?thesis by (simp only: T1)
qed

lemma postReminder_tables [simp]:
  "babies (snd (postReminder tz now userId bId w)) = babies w"
  "schedule (snd (postReminder tz now userId bId w)) = schedule w"
  by (auto simp: postReminder_def Let_def split: option.splits)

lemma postReminder_reminders_eq:
  assumes "babies w bId = Some b" and "motherUserId b = Some userId"
  shows "reminders (snd (postReminder tz now userId bId w)) =
     foldl (\<lambda>t q. applyRequest q t)
       (filter (\<lambda>r. reminderId r \<notin> reminderId ` set
                 (filter (\<lambda>r. (babyId r = bId \<and> \<not> sent r) \<and> scheduled_at r > now) (reminders w)))
               (reminders w))
       (map PutRequest
          (case dateOfBirth b of
             None \<Rightarrow> []
           | Some dob \<Rightarrow> postReminder_reminders tz userId bId dob now (schedule w)))"
  using assms
  by (simp add: postReminder_def Let_def batchWriteLoop_foldl deletes_filter
           cong: option.case_cong)

lemma postReminder_idempotent:
  "set (reminders (snd (postReminder tz now userId bId (snd (postReminder tz now userId bId w)))))
     = set (reminders (snd (postReminder tz now userId bId w)))"
proof (cases "babies w bId")
  case None
  then show ?thesis by (simp add: postReminder_def)
next
  case (Some b)
  show ?thesis
  proof (cases "motherUserId b = Some userId")
    case False
    with Some show ?thesis by (simp add: postReminder_def)
  next
    case True
    let ?w1 = "snd (postReminder tz now userId bId w)"
    have b1: "babies ?w1 bId = Some b" using Some by simp
    show ?thesis
      unfolding postReminder_reminders_eq[OF b1 True] postReminder_reminders_eq[OF Some True]
        postReminder_tables
      by (rule regenerate_twice)
  qed
qed

lemma putBirthDate_schedule [simp]:
  "schedule (putBirthDate tz now userId bId parsed w) = schedule w"
  by (simp add: putBirthDate_def Let_def)

lemma putBirthDate_idempotent:
  "set (reminders (putBirthDate tz now userId bId parsed (putBirthDate tz now userId bId parsed w)))
     = set (reminders (putBirthDate tz now userId bId parsed w))"
  unfolding putBirthDate_reminders_eq putBirthDate_schedule
  by (rule regenerate_twice)


text \<open>
  C1, evaluated. \<open>POST /api/baby\<close> for a baby born on 1970-01-01, at that same instant,
  draws the identifiers \<open>b\<close>, \<open>u1\<close>, \<open>u2\<close> from \<open>uuidv4()\<close>: the baby is \<open>b\<close> and its
  two reminders are \<open>u1\<close> and \<open>u2\<close>, no composite of baby, vaccine, cadence and date.
  Materializing again for the same baby, date of birth, schedule and instant through
  \<open>POST /api/reminder/b\<close> leaves two reminders with other identities, the composite
  ones; from then on a further run of that route changes nothing
  (\<open>postReminder_idempotent\<close>).
\<close>

theorem creation_route_uses_random_identifiers:
  "fst (postBaby 0 0 exUuid ''m'' 0 exWorld) = ''b'' \<and>
   map reminderId (reminders (snd (postBaby 0 0 exUuid ''m'' 0 exWorld))) = [''u1'', ''u2''] \<and>
   map reminderId
     (reminders (snd (postReminder 0 0 ''m'' ''b'' (snd (postBaby 0 0 exUuid ''m'' 0 exWorld)))))
     = [''b#OPV#weekly#1970-02-05'', ''b#OPV#daily#1970-02-11''] \<and>
   reminders (snd (postReminder 0 0 ''m'' ''b''
       (snd (postReminder 0 0 ''m'' ''b'' (snd (postBaby 0 0 exUuid ''m'' 0 exWorld))))))
     = reminders (snd (postReminder 0 0 ''m'' ''b'' (snd (postBaby 0 0 exUuid ''m'' 0 exWorld))))"
  by code_simp

text \<open>After a correction every unsent reminder of the baby is a newly built one, whatever
  the trigger times of the old ones were; a sent reminder stays as it is unless a new
  reminder has its identifier.\<close>

lemma putBirthDate_keeps_sent:
  assumes d: "distinct (map reminderId (reminders w))"
    and r: "r \<in> set (reminders w)" and s: "sent r"
    and new: "reminderId r \<notin> reminderId ` set (putBirthDate_reminders tz userId bId parsed now (schedule w))"
  shows "r \<in> set (reminders (putBirthDate tz now userId bId parsed w))"
proof -
  let ?P = "\<lambda>r. babyId r = bId \<and> \<not> sent r"
  have "reminderId r \<notin> reminderId ` set (filter ?P (reminders w))"
  proof
    assume "reminderId r \<in> reminderId ` set (filter ?P (reminders w))"
    then obtain x where x: "x \<in> set (reminders w)" "\<not> sent x" "reminderId x = reminderId r" by auto
    from d have "inj_on reminderId (set (reminders w))" by (simp add: distinct_map)
    with x r have "x = r" by (auto dest: inj_onD)
    with x(2) s show False by simp
  qed
  with r have "r \<in> set (filter (\<lambda>r. reminderId r \<notin> reminderId ` set (filter ?P (reminders w))) (reminders w))"
    by simp
  with puts_other[OF new] show ?thesis unfolding putBirthDate_reminders_eq by simp
qed

text \<open>
  C3, evaluated. The baby \<open>b\<close> has an unsent reminder \<open>past1\<close> whose trigger time has
  passed and a sent reminder \<open>sent1\<close>. Correcting the date of birth at \<open>now = 0\<close> deletes
  \<open>past1\<close>; the regeneration route, run instead, keeps it. In the second world the
  daily reminder of \<open>OPV\<close> was sent at 11:00 on 1970-02-11; a correction at 12:00 that
  day (to the same date of birth) puts a reminder of the same identifier for 14:00 and
  so replaces the sent one by an unsent one.
\<close>

theorem correction_deletes_past_unsent:
  "map reminderId (reminders (putBirthDate 0 0 ''m'' ''b'' 0 exOld))
     = [''sent1'', ''b#OPV#weekly#1970-02-05'', ''b#OPV#daily#1970-02-11''] \<and>
   map reminderId (reminders (snd (postReminder 0 0 ''m'' ''b'' exOld)))
     = [''past1'', ''sent1'', ''b#OPV#weekly#1970-02-05'', ''b#OPV#daily#1970-02-11''] \<and>
   reminders (putBirthDate 0 3585600000 ''m'' ''b'' 0 exAfterSend)
     = [exSentDaily\<lparr>scheduled_at := 3592800000, sent := False\<rparr>]"
  by code_simp

section \<open>Properties of the Administered-Vaccine Tracker\<close>

lemma markAdministered_again:
  assumes "fst (markAdministered now newId userId bId vacc date type w) = 200 \<or>
           fst (markAdministered now newId userId bId vacc date type w) = 201"
  shows "markAdministered now' newId' userId bId vacc date type'
           (snd (markAdministered now newId userId bId vacc date type w))
         = (200, snd (markAdministered now newId userId bId vacc date type w))"
proof -
  from assms have ne: "vacc \<noteq> []" "date \<noteq> []"
    by (auto simp: markAdministered_def split: if_splits)
  with assms obtain b where b: "babies w bId = Some b"
    by (cases "babies w bId") (auto simp: markAdministered_def)
  with assms ne have own: "motherUserId b = Some userId"
    by (auto simp: markAdministered_def split: if_splits)
  let ?L = "case administered b of None \<Rightarrow> [] | Some xs \<Rightarrow> xs"
  let ?P = "\<lambda>e. a_vaccine e = vacc \<and> a_date e = date"
  let ?new = "\<lparr>a_id = Some newId, a_vaccine = vacc, a_date = date,
               a_markedAt = Some now, a_type = Some type\<rparr>"
  show ?thesis
  proof (cases "list_ex ?P ?L")
    case True
    with ne b own have "markAdministered now newId userId bId vacc date type w = (200, w)"
      by (simp add: markAdministered_def)
    moreover from True ne b own
    have "markAdministered now' newId' userId bId vacc date type' w = (200, w)"
      by (simp add: markAdministered_def)
    ultimately show ?thesis by simp
  next
    case False
    let ?w' = "w\<lparr>babies := (babies w)(bId \<mapsto> b\<lparr>administered := Some (?L @ [?new])\<rparr>)\<rparr>"
    from False ne b own
    have 1: "markAdministered now newId userId bId vacc date type w = (201, ?w')"
      by (simp add: markAdministered_def Let_def)
    have "list_ex ?P (?L @ [?new])" by (simp add: list_ex_iff)
    with ne own have "markAdministered now' newId' userId bId vacc date type' ?w' = (200, ?w')"
      by (simp add: markAdministered_def)
    with 1 show ?thesis by simp
  qed
qed

lemma markAdministered_keeps_unique:
  assumes "distinct (map (\<lambda>e. (a_vaccine e, a_date e)) (snd (getAdministered userId bId w)))"
  shows "distinct (map (\<lambda>e. (a_vaccine e, a_date e))
           (snd (getAdministered userId bId
              (snd (markAdministered now newId userId bId vacc date type w)))))"
  using assms
  by (auto simp: markAdministered_def getAdministered_def Let_def list_ex_iff
           split: if_splits option.splits)

text \<open>
  C5, evaluated. The baby was born on 1970-01-01 and \<open>BCG\<close> is due at birth. One day
  later the initialization route is called twice: the list holds the pair
  (\<open>BCG\<close>, \<open>1970-01-01\<close>) twice.
\<close>

theorem init_twice_duplicates:
  "map (\<lambda>e. (a_vaccine e, a_date e))
     (snd (getAdministered ''m'' ''b''
        (snd (initAdministered 86400000 ''m'' ''b''
           (snd (initAdministered 86400000 ''m'' ''b'' exAtBirth))))))
   = [(''BCG'', ''1970-01-01''), (''BCG'', ''1970-01-01'')]"
  by code_simp

section \<open>Properties of the Due-Reminder Processor\<close>

lemma contactOf_update [simp]:
  "contactOf (w\<lparr>reminders := R, outbox := O'\<rparr>) = contactOf w"
  by (rule ext) (simp add: contactOf_def)

lemma groupCall_update [simp]:
  "groupCall (w\<lparr>reminders := R, outbox := O'\<rparr>) = groupCall w"
  by (rule ext) (simp add: groupCall_def)

lemma groupThrows_update [simp]:
  "groupThrows sendFails (w\<lparr>reminders := R, outbox := O'\<rparr>) = groupThrows sendFails w"
  by (rule ext) (simp add: groupThrows_def)

lemma markAll_append: "markAll ys (markAll xs tbl) = markAll (xs @ ys) tbl"
  by (simp add: markAll_def)

lemma markAll_Nil [simp]: "markAll [] tbl = tbl"
  by (simp add: markAll_def)

lemma processGroups_closed:
  "processGroups sendFails gs w =
     (let pre = takeWhile (\<lambda>g. \<not> groupThrows sendFails w g) gs
      in (\<not> list_ex (groupThrows sendFails w) gs,
          w\<lparr>reminders := markAll (concat (map snd (filter (\<lambda>g. groupCall w g \<noteq> None) pre)))
                             (reminders w),
            outbox := outbox w @ List.map_filter (groupCall w) pre\<rparr>))"
proof (induction gs arbitrary: w)
  case Nil
  then show ?case by (simp add: List.map_filter_simps)
next
  case (Cons g gs)
  obtain mId rs where g: "g = (mId, rs)" by (cases g)
  show ?case
  proof (cases "contactOf w mId")
    case None
    then have "groupCall w (mId, rs) = None" "\<not> groupThrows sendFails w (mId, rs)"
      by (simp_all add: groupCall_def groupThrows_def)
    with None show ?thesis
      by (simp add: g Cons.IH Let_def List.map_filter_simps)
  next
    case (Some p)
    obtain e nm where p: "p = (e, nm)" by (cases p)
    let ?c = "\<lparr>c_email = e, c_fullName = nm, c_reminders = rs\<rparr>"
    have gc: "groupCall w (mId, rs) = Some ?c" by (simp add: groupCall_def Some p)
    show ?thesis
    proof (cases "rs = [] \<or> sendFails ?c")
      case True
      then have "groupThrows sendFails w (mId, rs)" by (simp add: groupThrows_def gc)
      with True Some p show ?thesis
        by (auto simp: g Let_def List.map_filter_simps)
    next
      case False
      then have nt: "\<not> groupThrows sendFails w (mId, rs)" by (simp add: groupThrows_def gc)
      from False Some p have
        "processGroups sendFails (g # gs) w =
           processGroups sendFails gs (w\<lparr>reminders := markAll rs (reminders w), outbox := outbox w @ [?c]\<rparr>)"
        by (simp add: g Let_def)
      also have "\<dots> =
        (let pre = takeWhile (\<lambda>g. \<not> groupThrows sendFails w g) gs
         in (\<not> list_ex (groupThrows sendFails w) gs,
             w\<lparr>reminders := markAll (concat (map snd (filter (\<lambda>g. groupCall w g \<noteq> None) pre)))
                             (markAll rs (reminders w)),
               outbox := (outbox w @ [?c]) @ List.map_filter (groupCall w) pre\<rparr>))"
        by (simp add: Cons.IH Let_def)
      finally show ?thesis using nt gc
        by (simp add: Let_def List.map_filter_simps markAll_append g)
    qed
  qed
qed


subsection \<open>Grouping\<close>

lemma addToGroup_map_fst:
  "map fst (addToGroup r gs) =
     (if motherId r \<in> set (map fst gs) then map fst gs else map fst gs @ [motherId r])"
proof (induction gs)
  case Nil
  then show ?case by simp
next
  case (Cons g gs)
  obtain k rs where g: "g = (k, rs)" by (cases g)
  show ?case
  proof (cases "k = motherId r")
    case True
    then show ?thesis by (simp add: g)
  next
    case False
    then show ?thesis using Cons.IH by (simp add: g)
  qed
qed

lemma addToGroup_keys: "fst ` set (addToGroup r gs) = insert (motherId r) (fst ` set gs)"
proof -
  have "set (map fst (addToGroup r gs)) = insert (motherId r) (set (map fst gs))"
    unfolding addToGroup_map_fst by auto
  then show ?thesis by simp
qed

lemma addToGroup_distinct: "distinct (map fst gs) \<Longrightarrow> distinct (map fst (addToGroup r gs))"
proof (induction gs)
  case Nil
  then show ?case by simp
next
  case (Cons g gs)
  obtain k rs where g: "g = (k, rs)" by (cases g)
  show ?case
  proof (cases "k = motherId r")
    case True
    with Cons.prems show ?thesis by (simp add: g)
  next
    case False
    have "k \<notin> fst ` set (addToGroup r gs)"
      using Cons.prems False by (simp add: addToGroup_keys g)
    with Cons False show ?thesis by (simp add: g)
  qed
qed

lemma addToGroup_member:
  "(k, rs) \<in> set (addToGroup r gs) \<Longrightarrow> distinct (map fst gs) \<Longrightarrow>
   (k \<noteq> motherId r \<and> (k, rs) \<in> set gs) \<or>
   (k = motherId r \<and> ((k \<notin> fst ` set gs \<and> rs = [r]) \<or> (\<exists>rs0. (k, rs0) \<in> set gs \<and> rs = rs0 @ [r])))"
proof (induction gs)
  case Nil
  then show ?case by auto
next
  case (Cons g gs)
  obtain k' rs' where g: "g = (k', rs')" by (cases g)
  show ?case
  proof (cases "k' = motherId r")
    case True
    with Cons.prems show ?thesis by (auto simp: g rev_image_eqI)
  next
    case False
    with Cons.prems have "(k, rs) = (k', rs') \<or> (k, rs) \<in> set (addToGroup r gs)"
      by (simp add: g)
    then show ?thesis
    proof
      assume "(k, rs) = (k', rs')"
      with False show ?thesis by (simp add: g)
    next
      assume "(k, rs) \<in> set (addToGroup r gs)"
      from Cons.IH[OF this] Cons.prems(2) False show ?thesis by (auto simp: g)
    qed
  qed
qed

lemma addToGroup_inv:
  assumes d: "distinct (map fst gs)"
    and m: "\<And>k rs. (k, rs) \<in> set gs \<Longrightarrow> rs = filter (\<lambda>r. motherId r = k) xs \<and> rs \<noteq> []"
    and ks: "fst ` set gs = motherId ` set xs"
    and new: "(k, rs) \<in> set (addToGroup r gs)"
  shows "rs = filter (\<lambda>x. motherId x = k) (xs @ [r]) \<and> rs \<noteq> []"
proof -
  from addToGroup_member[OF new d] show ?thesis
  proof (elim disjE conjE exE)
    assume "k \<noteq> motherId r" "(k, rs) \<in> set gs"
    with m show ?thesis by auto
  next
    assume k: "k = motherId r" "k \<notin> fst ` set gs" "rs = [r]"
    from k(2) have "k \<notin> motherId ` set xs" unfolding ks .
    then have "\<forall>x \<in> set xs. motherId x \<noteq> k" by blast
    then have "filter (\<lambda>x. motherId x = k) xs = []" by (simp add: filter_empty_conv)
    with k show ?thesis by simp
  next
    fix rs0 assume k: "k = motherId r" "(k, rs0) \<in> set gs" "rs = rs0 @ [r]"
    with m show ?thesis by auto
  qed
qed

lemma foldl_addToGroup_inv:
  assumes "distinct (map fst gs)"
    and "\<And>k rs. (k, rs) \<in> set gs \<Longrightarrow> rs = filter (\<lambda>r. motherId r = k) xs \<and> rs \<noteq> []"
    and "fst ` set gs = motherId ` set xs"
  shows "distinct (map fst (foldl (\<lambda>acc r. addToGroup r acc) gs ys)) \<and>
         (\<forall>k rs. (k, rs) \<in> set (foldl (\<lambda>acc r. addToGroup r acc) gs ys) \<longrightarrow>
            rs = filter (\<lambda>r. motherId r = k) (xs @ ys) \<and> rs \<noteq> []) \<and>
         fst ` set (foldl (\<lambda>acc r. addToGroup r acc) gs ys) = motherId ` set (xs @ ys)"
  using assms
proof (induction ys arbitrary: gs xs)
  case Nil
  then show ?case by auto
next
  case (Cons y ys)
  have 1: "distinct (map fst (addToGroup y gs))"
    using Cons.prems(1) by (rule addToGroup_distinct)
  have 2: "\<And>k rs. (k, rs) \<in> set (addToGroup y gs) \<Longrightarrow>
             rs = filter (\<lambda>r. motherId r = k) (xs @ [y]) \<and> rs \<noteq> []"
    using addToGroup_inv[OF Cons.prems(1) Cons.prems(2) Cons.prems(3)] by blast
  have 3: "fst ` set (addToGroup y gs) = motherId ` set (xs @ [y])"
    using Cons.prems(3) by (simp add: addToGroup_keys)
  from Cons.IH[OF 1 2 3] show ?case by simp
qed

lemma groupByMother_inv:
  "distinct (map fst (groupByMother due)) \<and>
   (\<forall>k rs. (k, rs) \<in> set (groupByMother due) \<longrightarrow>
      rs = filter (\<lambda>r. motherId r = k) due \<and> rs \<noteq> []) \<and>
   fst ` set (groupByMother due) = motherId ` set due"
  using foldl_addToGroup_inv[of "[]" "[]" due] by (simp add: groupByMother_def)




lemma groupByMother_Nil [simp]: "groupByMother [] = []"
  by (simp add: groupByMother_def)

lemma groupByMother_eq_Nil: "groupByMother due = [] \<longleftrightarrow> due = []"
proof
  assume "groupByMother due = []"
  then have "motherId ` set due = {}" using groupByMother_inv[of due] by simp
  then show "due = []" by simp
qed simp


subsection \<open>Marking\<close>




subsection \<open>The calls of a run\<close>





subsection \<open>The handler\<close>


lemma handler_closed:
  "handler sendFails c now w =
     (let gs = groupByMother (queryDue c now (reminders w));
          pre = takeWhile (\<lambda>g. \<not> groupThrows sendFails w g) gs
      in ((if gs = [] then (200, ''No '' @ cadenceStr c @ '' reminders.'')
           else if list_ex (groupThrows sendFails w) gs then (500, capitalised c @ '' cron failure.'')
           else (200, capitalised c @ '' reminders processed.'')),
          w\<lparr>reminders := markAll (concat (map snd (filter (\<lambda>g. groupCall w g \<noteq> None) pre)))
                             (reminders w),
            outbox := outbox w @ List.map_filter (groupCall w) pre\<rparr>))"
proof (cases "queryDue c now (reminders w) = []")
  case True
  then show ?thesis by (simp add: handler_def List.map_filter_simps)
next
  case False
  then have "groupByMother (queryDue c now (reminders w)) \<noteq> []"
    by (simp add: groupByMother_eq_Nil)
  with False show ?thesis
    by (simp add: handler_def processGroups_closed Let_def)
qed

text \<open>
  C2, as the code has it. Let \<open>gs\<close> be the groups of a run in the order of the loop.
  A group without contact (no such mother, no address) is skipped and the loop goes on
  with the next group. The first group whose dispatch throws ends the loop: the run
  returns 500, the groups before it that have a contact are dispatched and their
  reminders marked sent, that group and all later ones are neither dispatched nor
  marked. When no dispatch throws the run returns 200 and every group with a contact is
  dispatched and marked. The response says nothing about skipped groups.
\<close>

theorem handler_skips_and_aborts:
  "(let gs = groupByMother (queryDue c now (reminders w));
        pre = takeWhile (\<lambda>g. \<not> groupThrows sendFails w g) gs;
        w' = snd (handler sendFails c now w)
    in fst (fst (handler sendFails c now w)) =
         (if list_ex (groupThrows sendFails w) gs then 500 else 200) \<and>
       outbox w' = outbox w @ List.map_filter (groupCall w) pre \<and>
       reminders w' =
         markAll (concat (map snd (filter (\<lambda>g. groupCall w g \<noteq> None) pre))) (reminders w))"
proof -
  let ?gs = "groupByMother (queryDue c now (reminders w))"
  let ?pre = "takeWhile (\<lambda>g. \<not> groupThrows sendFails w g) ?gs"
  have status: "fst (fst (handler sendFails c now w)) =
      (if list_ex (groupThrows sendFails w) ?gs then 500 else 200)"
  proof (cases "?gs = []")
    case True
    then show ?thesis by (simp add: handler_closed Let_def)
  next
    case False
    then show ?thesis by (simp add: handler_closed Let_def)
  qed
  have calls: "outbox (snd (handler sendFails c now w)) =
      outbox w @ List.map_filter (groupCall w) ?pre"
    by (simp add: handler_closed Let_def)
  have marks: "reminders (snd (handler sendFails c now w)) =
      markAll (concat (map snd (filter (\<lambda>g. groupCall w g \<noteq> None) ?pre))) (reminders w)"
    by (simp add: handler_closed Let_def)
  from status calls marks show ?thesis by (simp only: Let_def)
qed

text \<open>
  C2 as stated fails. Two groups are due, of \<open>mA\<close> and of \<open>mB\<close>; the transport throws
  for the address of \<open>mA\<close>. The run returns 500, nothing is dispatched and nothing is
  marked: the group of \<open>mB\<close> is never processed.
\<close>

theorem dispatch_error_aborts_run:
  "fst (handler exFailsForA daily 10 exCron) = (500, ''Daily cron failure.'') \<and>
   outbox (snd (handler exFailsForA daily 10 exCron)) = [] \<and>
   map sent (reminders (snd (handler exFailsForA daily 10 exCron))) = [False, False, False]"
  by code_simp

text \<open>The first version of the weekly handler never dispatches: its run changes nothing,
  and fails as soon as the mother of a group exists.\<close>

lemma processGroupsUndeclared_world: "snd (processGroupsUndeclared gs w) = w"
  by (induction gs w rule: processGroupsUndeclared.induct) (auto split: option.splits)

lemma processGroupsUndeclared_status:
  "fst (processGroupsUndeclared gs w) \<longleftrightarrow> \<not> list_ex (\<lambda>g. mothers w (fst g) \<noteq> None) gs"
  by (induction gs w rule: processGroupsUndeclared.induct) (auto split: option.splits)

lemma handlerUndeclared_world: "snd (handlerUndeclared now w) = w"
proof -
  obtain ok w' where p: "processGroupsUndeclared (groupByMother (queryDue weekly now (reminders w))) w = (ok, w')"
    by (cases "processGroupsUndeclared (groupByMother (queryDue weekly now (reminders w))) w")
  with processGroupsUndeclared_world[of "groupByMother (queryDue weekly now (reminders w))" w]
  have "w' = w" by simp
  with p show ?thesis by (cases ok) (simp_all add: handlerUndeclared_def Let_def)
qed




end
